theory Spec2Isabelle
  imports
    Main
    "HOL-Library.Sublist"
    "HOL-Library.Multiset"
    "HOL-Library.Char_ord"
    "HOL-Library.List_Lexorder"
    "HOL-Library.AList"
begin

section \<open>Strings\<close>

text \<open>
  Strings are byte lists. \<open>toLowerCase\<close> (JavaScript) and \<open>lower\<close> (Python) are modelled
  on the ASCII letters, which is where resource identifiers and type names live; every
  other character is left as it is.
\<close>

definition toLowerChar :: "char \<Rightarrow> char" where
  "toLowerChar c =
     (case map_of (zip ''ABCDEFGHIJKLMNOPQRSTUVWXYZ'' ''abcdefghijklmnopqrstuvwxyz'') c of
        Some l \<Rightarrow> l
      | None \<Rightarrow> c)"

definition toLowerCase :: "string \<Rightarrow> string" where
  "toLowerCase s = map toLowerChar s"

text \<open>Python's \<open>keyword in s\<close> on strings: \<open>keyword\<close> occurs in \<open>s\<close> as a contiguous run.\<close>

fun contains :: "string \<Rightarrow> string \<Rightarrow> bool" where
  "contains keyword [] = (keyword = [])"
| "contains keyword (c # cs) = (prefix keyword (c # cs) \<or> contains keyword cs)"

section \<open>Type classifier\<close>

subsection \<open>The dashboard: \<open>getCategory\<close>\<close>

text \<open>
  \<open>serviceCategories\<close> is an object literal; \<open>for (const prefix in serviceCategories)\<close>
  enumerates its keys in the order they are written.
\<close>

definition serviceCategories :: "(string \<times> string) list" where
  "serviceCategories =
     [(''Microsoft.Compute'', ''Compute''),
      (''Microsoft.Storage'', ''Storage''),
      (''Microsoft.DBforMySQL'', ''Database''),
      (''Microsoft.DBforPostgreSQL'', ''Database''),
      (''Microsoft.Sql'', ''Database''),
      (''Microsoft.Network'', ''Network''),
      (''Microsoft.Security'', ''Security''),
      (''Microsoft.Insights'', ''Monitoring''),
      (''Microsoft.OperationalInsights'', ''Monitoring''),
      (''Microsoft.Logic'', ''Integration''),
      (''Microsoft.ApiManagement'', ''Integration''),
      (''Microsoft.EventGrid'', ''Integration'')]"

text \<open>The loop of \<open>getCategory\<close> over a table: return at the first prefix the type starts with.\<close>

fun getCategoryIn :: "(string \<times> string) list \<Rightarrow> string \<Rightarrow> string" where
  "getCategoryIn [] type = ''Other''"
| "getCategoryIn ((pre, category) # rest) type =
     (if prefix pre type then category else getCategoryIn rest type)"

definition getCategory :: "string \<Rightarrow> string" where
  "getCategory type = getCategoryIn serviceCategories type"

text \<open>The keys of \<open>iconMap\<close>: the categories the dashboard knows.\<close>

definition categoryNames :: "string list" where
  "categoryNames =
     [''Compute'', ''Storage'', ''Database'', ''Network'', ''Security'', ''Monitoring'',
      ''Integration'', ''Other'']"

subsection \<open>The PNG generator: \<open>categorize_resources\<close>\<close>

definition type_mapping :: "(string \<times> string list) list" where
  "type_mapping =
     [(''compute'', [''microsoft.compute'', ''microsoft.containerservice'',
                     ''microsoft.containerinstance'', ''microsoft.web'']),
      (''storage'', [''microsoft.storage'']),
      (''database'', [''microsoft.sql'', ''microsoft.documentdb'', ''microsoft.dbformysql'',
                      ''microsoft.dbforpostgresql'', ''microsoft.cache'']),
      (''network'', [''microsoft.network'']),
      (''security'', [''microsoft.keyvault'', ''microsoft.security'']),
      (''analytics'', [''microsoft.synapse'', ''microsoft.datafactory'',
                       ''microsoft.databricks'', ''microsoft.streamanalytics'']),
      (''ai_ml'', [''microsoft.cognitiveservices'', ''microsoft.machinelearningservices'']),
      (''integration'', [''microsoft.logic'', ''microsoft.servicebus'', ''microsoft.eventgrid'',
                         ''microsoft.eventhub'']),
      (''monitoring'', [''microsoft.insights'', ''microsoft.operationalinsights''])]"

text \<open>The keys of the \<open>categories\<close> dictionary that \<open>categorize_resources\<close> returns.\<close>

definition png_categories :: "string list" where
  "png_categories =
     [''compute'', ''storage'', ''database'', ''network'', ''security'', ''analytics'',
      ''ai_ml'', ''integration'', ''monitoring'', ''other'']"

text \<open>
  The inner loop over \<open>type_mapping.items()\<close>: the first category one of whose keywords
  occurs in the lower-cased type, where the loop breaks; \<open>None\<close> when \<open>categorized\<close> stays
  false.
\<close>

fun categorize_first :: "(string \<times> string list) list \<Rightarrow> string \<Rightarrow> string option" where
  "categorize_first [] resource_type_lower = None"
| "categorize_first ((category, keywords) # rest) resource_type_lower =
     (if list_ex (\<lambda>keyword. contains keyword resource_type_lower) keywords
      then Some category
      else categorize_first rest resource_type_lower)"

text \<open>The bucket one key of \<open>by_type\<close> is put into.\<close>

definition categorize :: "string \<Rightarrow> string" where
  "categorize resource_type =
     (case categorize_first type_mapping (toLowerCase resource_type) of
        Some category \<Rightarrow> category
      | None \<Rightarrow> ''other'')"

section \<open>Resources\<close>

text \<open>
  The dashboard receives the exported architecture as JSON text and parses it. A parsed
  value is one of the following; \<open>JObj\<close> lists the entries of an object in the order
  \<open>for (const key in obj)\<close> enumerates them, with pairwise different keys. Numbers are the
  integers (priorities are).
\<close>

datatype json =
    JNull
  | JBool bool
  | JNum int
  | JStr string
  | JArr "json list"
  | JObj "(string \<times> json) list"

text \<open>
  A resource of \<open>by_type\<close>. The identifier and the type are strings; the display
  attributes and \<open>properties\<close> may be missing (\<open>undefined\<close> is \<open>None\<close>).
\<close>

record resource =
  res_id :: string
  res_type :: string
  res_name :: "string option"
  resourceGroup :: "string option"
  location :: "string option"
  properties :: "json option"

text \<open>\<open>r.category\<close>, which \<open>initializeDashboard\<close> sets on every resource from its type.\<close>

definition category :: "resource \<Rightarrow> string" where
  "category r = getCategory (res_type r)"

text \<open>
  The map \<open>initializeDashboard\<close> fills: \<open>resourceMap.set(r.id.toLowerCase(), r)\<close> for each
  resource in turn, a later resource replacing an earlier one under the same key.
\<close>

definition resourceIndex :: "resource list \<Rightarrow> (string \<rightharpoonup> resource)" where
  "resourceIndex rs = fold (\<lambda>r m. m(toLowerCase (res_id r) \<mapsto> r)) rs Map.empty"

section \<open>Network topology\<close>

type_synonym edge = "string \<times> string"

record node =
  node_id :: string
  node_label :: "string option"
  node_title :: string
  node_image :: string
  node_group :: "string option"

text \<open>
  \<open>scanProperties\<close> is a closure, made anew for each resource \<open>r\<close> of the loop: it
  reads \<open>resourceMap\<close>, \<open>filteredResourceIds\<close> and \<open>r\<close> from its scope.
\<close>

record scope =
  resourceMap :: "string \<rightharpoonup> resource"
  filteredResourceIds :: "string list"
  current :: resource

text \<open>
  The branch of \<open>scanProperties\<close> for a string \<open>obj[key]\<close>: the edges it pushes, as
  pairs \<open>(from, to)\<close>.
\<close>

definition scanString :: "scope \<Rightarrow> string \<Rightarrow> edge list" where
  "scanString env s =
     (let val = toLowerCase s in
      if prefix ''/subscriptions/'' val \<and> resourceMap env val \<noteq> None
         \<and> val \<in> set (filteredResourceIds env)
      then (if toLowerCase (res_id (current env)) \<noteq> val
            then [(res_id (current env), res_id (the (resourceMap env val)))]
            else [])
      else [])"

text \<open>
  \<open>scanProperties\<close> walks the keys of \<open>obj\<close>: the entries of an object, the items of an
  array, the characters of a string (a string has its indices as keys, and each
  \<open>obj[key]\<close> is then a one-character string); \<open>null\<close>, numbers and booleans have no
  keys. \<open>scanValue\<close> is the body of the loop for one \<open>obj[key]\<close>.
\<close>

fun scanProperties :: "scope \<Rightarrow> json \<Rightarrow> edge list"
  and scanEntries :: "scope \<Rightarrow> (string \<times> json) list \<Rightarrow> edge list"
  and scanItems :: "scope \<Rightarrow> json list \<Rightarrow> edge list"
  and scanValue :: "scope \<Rightarrow> json \<Rightarrow> edge list"
where
  "scanProperties env (JObj kvs) = scanEntries env kvs"
| "scanProperties env (JArr xs) = scanItems env xs"
| "scanProperties env (JStr s) = concat (map (\<lambda>c. scanString env [c]) s)"
| "scanProperties env JNull = []"
| "scanProperties env (JBool b) = []"
| "scanProperties env (JNum n) = []"
| "scanEntries env [] = []"
| "scanEntries env ((key, v) # kvs) = scanValue env v @ scanEntries env kvs"
| "scanItems env [] = []"
| "scanItems env (v # vs) = scanValue env v @ scanItems env vs"
| "scanValue env (JStr s) = scanString env s"
| "scanValue env (JObj kvs) = scanProperties env (JObj kvs)"
| "scanValue env (JArr xs) = scanProperties env (JArr xs)"
| "scanValue env JNull = []"
| "scanValue env (JBool b) = []"
| "scanValue env (JNum n) = []"

text \<open>\<open>scanProperties(r.properties)\<close>; a loop over the keys of \<open>undefined\<close> has no turns.\<close>

definition scanResource ::
  "(string \<rightharpoonup> resource) \<Rightarrow> string list \<Rightarrow> resource \<Rightarrow> edge list" where
  "scanResource m ids r =
     (case properties r of
        None \<Rightarrow> []
      | Some obj \<Rightarrow>
          scanProperties \<lparr>resourceMap = m, filteredResourceIds = ids, current = r\<rparr> obj)"

text \<open>The arrays and the set that \<open>renderNetworkTopology\<close> fills.\<close>

record topology =
  nodes :: "node list"
  edges :: "edge list"
  addedNodes :: "string list"

text \<open>
  One turn of \<open>resources.forEach\<close>. \<open>getIcon\<close> is called for the node's image and is not
  defined in the file (as the file stands the call raises a \<open>ReferenceError\<close>); the
  function is a parameter here, and the rest of the loop is read as written.
\<close>

definition visitResource ::
  "(string \<Rightarrow> string) \<Rightarrow> (string \<rightharpoonup> resource) \<Rightarrow> string list \<Rightarrow> resource \<Rightarrow> topology
     \<Rightarrow> topology" where
  "visitResource getIcon m ids r t =
     (let t' =
        (if res_id r \<notin> set (addedNodes t)
         then t\<lparr>nodes := nodes t @
                  [\<lparr>node_id = res_id r, node_label = res_name r, node_title = res_type r,
                    node_image = getIcon (res_type r), node_group = resourceGroup r\<rparr>],
                addedNodes := addedNodes t @ [res_id r]\<rparr>
         else t)
      in t'\<lparr>edges := edges t' @ scanResource m ids r\<rparr>)"

definition renderNetworkTopology ::
  "(string \<Rightarrow> string) \<Rightarrow> (string \<rightharpoonup> resource) \<Rightarrow> resource list \<Rightarrow> topology" where
  "renderNetworkTopology getIcon m resources =
     (let filteredResourceIds = map (\<lambda>r. toLowerCase (res_id r)) resources
      in fold (visitResource getIcon m filteredResourceIds) resources
           \<lparr>nodes = [], edges = [], addedNodes = []\<rparr>)"

text \<open>The graph of a resource collection: the topology drawn when nothing is filtered out.\<close>

definition buildGraph :: "(string \<Rightarrow> string) \<Rightarrow> resource list \<Rightarrow> topology" where
  "buildGraph getIcon rs = renderNetworkTopology getIcon (resourceIndex rs) rs"

text \<open>
  The strings held anywhere in a value, in depth-first order: the string-valued leaves
  of a property structure.
\<close>

fun strings_in :: "json \<Rightarrow> string list" where
  "strings_in (JStr s) = [s]"
| "strings_in (JArr xs) = concat (map strings_in xs)"
| "strings_in (JObj kvs) = concat (map (\<lambda>kv. strings_in (snd kv)) kvs)"
| "strings_in JNull = []"
| "strings_in (JBool b) = []"
| "strings_in (JNum n) = []"

text \<open>The string-valued leaves of a resource's properties, when these are a mapping or a sequence.\<close>

definition leaf_strings :: "resource \<Rightarrow> string list" where
  "leaf_strings r =
     (case properties r of
        Some (JObj kvs) \<Rightarrow> strings_in (JObj kvs)
      | Some (JArr xs) \<Rightarrow> strings_in (JArr xs)
      | _ \<Rightarrow> [])"

section \<open>Security view\<close>

text \<open>
  What can go wrong in \<open>renderSecurityView\<close>. \<open>TypeError\<close> is the exception of reading
  a property of \<open>undefined\<close> or \<open>null\<close>, or of calling what is not a function.
  \<open>NotANumber\<close> marks a comparison the model does not follow: a priority that is not a
  number makes the comparator return \<open>NaN\<close> or a coerced value, and the order of the
  sorted array is then left to the engine.
\<close>

datatype error = TypeError | NotANumber

text \<open>\<open>v[key]\<close> for a value that is neither \<open>undefined\<close> nor \<open>null\<close>; \<open>None\<close> is \<open>undefined\<close>.\<close>

definition field :: "json \<Rightarrow> string \<Rightarrow> json option" where
  "field v key = (case v of JObj kvs \<Rightarrow> map_of kvs key | _ \<Rightarrow> None)"

definition falsy :: "json \<Rightarrow> bool" where
  "falsy v = (v = JNull \<or> v = JBool False \<or> v = JNum 0 \<or> v = JStr [])"

text \<open>\<open>x || []\<close>\<close>

definition orEmpty :: "json option \<Rightarrow> json" where
  "orEmpty x = (case x of None \<Rightarrow> JArr [] | Some v \<Rightarrow> if falsy v then JArr [] else v)"

text \<open>
  \<open>a.concat(b)\<close> followed by \<open>.sort\<close>: an array receives the items of an array \<open>b\<close>, or
  \<open>b\<close> itself as one more item; on anything but an array, \<open>concat\<close> or the \<open>sort\<close> after
  it is not a function.
\<close>

definition js_concat :: "json \<Rightarrow> json \<Rightarrow> error + json list" where
  "js_concat a b =
     (case a of
        JArr xs \<Rightarrow> Inr (xs @ (case b of JArr ys \<Rightarrow> ys | _ \<Rightarrow> [b]))
      | _ \<Rightarrow> Inl TypeError)"

text \<open>
  \<open>Array.prototype.sort\<close> with a comparator is a builtin. The language standard makes it
  stable and has \<open>a\<close> stay before \<open>b\<close> unless \<open>compare(a, b) > 0\<close>; it is modelled by
  insertion from the right, driven by the comparator of the source.
\<close>

fun js_insert :: "('a \<Rightarrow> 'a \<Rightarrow> int) \<Rightarrow> 'a \<Rightarrow> 'a list \<Rightarrow> 'a list" where
  "js_insert compare a [] = [a]"
| "js_insert compare a (b # bs) =
     (if compare a b \<le> 0 then a # b # bs else b # js_insert compare a bs)"

definition js_sort :: "('a \<Rightarrow> 'a \<Rightarrow> int) \<Rightarrow> 'a list \<Rightarrow> 'a list" where
  "js_sort compare xs = foldr (js_insert compare) xs []"

text \<open>
  \<open>rule.properties\<close>, which the comparator and the table row read from; reading
  \<open>priority\<close> or \<open>sourcePortRange\<close> of it raises when it is \<open>undefined\<close> or \<open>null\<close>.
\<close>

definition ruleProperties :: "json \<Rightarrow> error + json" where
  "ruleProperties rule =
     (case rule of
        JNull \<Rightarrow> Inl TypeError
      | _ \<Rightarrow>
          (case field rule ''properties'' of
             None \<Rightarrow> Inl TypeError
           | Some JNull \<Rightarrow> Inl TypeError
           | Some r \<Rightarrow> Inr r))"

text \<open>\<open>rule.properties.priority\<close> when it is an integer.\<close>

definition priority :: "json \<Rightarrow> int option" where
  "priority rule =
     (case ruleProperties rule of
        Inl e \<Rightarrow> None
      | Inr r \<Rightarrow> (case field r ''priority'' of Some (JNum n) \<Rightarrow> Some n | _ \<Rightarrow> None))"

definition priorityOf :: "json \<Rightarrow> int" where
  "priorityOf rule = (case priority rule of Some n \<Rightarrow> n | None \<Rightarrow> 0)"

text \<open>\<open>(a, b) => a.properties.priority - b.properties.priority\<close> on integer priorities.\<close>

definition compareRules :: "json \<Rightarrow> json \<Rightarrow> int" where
  "compareRules a b = priorityOf a - priorityOf b"

text \<open>
  \<open>(nsg.properties.securityRules || []).concat(nsg.properties.defaultSecurityRules || [])\<close>
\<close>

definition nsgRules :: "resource \<Rightarrow> error + json list" where
  "nsgRules nsg =
     (case properties nsg of
        None \<Rightarrow> Inl TypeError
      | Some JNull \<Rightarrow> Inl TypeError
      | Some p \<Rightarrow>
          js_concat (orEmpty (field p ''securityRules''))
            (orEmpty (field p ''defaultSecurityRules'')))"

text \<open>
  The rules in the order of the rows of the table: \<open>rules.sort(...)\<close>, then one row
  each. The comparator is called when there are two rules or more; the row is built
  for every rule.
\<close>

definition displayRules :: "json list \<Rightarrow> error + json list" where
  "displayRules rules =
     (if list_ex (\<lambda>rule. isl (ruleProperties rule)) rules then Inl TypeError
      else if 1 < length rules \<and> list_ex (\<lambda>rule. priority rule = None) rules
      then Inl NotANumber
      else Inr (js_sort compareRules rules))"

record nsg_card =
  card_name :: "string option"
  card_group :: "string option"
  card_rules :: "json list"

definition renderNsg :: "resource \<Rightarrow> error + nsg_card" where
  "renderNsg nsg =
     (case nsgRules nsg of
        Inl e \<Rightarrow> Inl e
      | Inr rules \<Rightarrow>
          (case displayRules rules of
             Inl e \<Rightarrow> Inl e
           | Inr sorted_rules \<Rightarrow>
               Inr \<lparr>card_name = res_name nsg, card_group = resourceGroup nsg,
                    card_rules = sorted_rules\<rparr>))"

text \<open>\<open>nsgs.forEach\<close>: an exception ends the loop and leaves the view unfinished.\<close>

fun renderNsgs :: "resource list \<Rightarrow> error + nsg_card list" where
  "renderNsgs [] = Inr []"
| "renderNsgs (nsg # nsgs) =
     (case renderNsg nsg of
        Inl e \<Rightarrow> Inl e
      | Inr shown \<Rightarrow>
          (case renderNsgs nsgs of Inl e \<Rightarrow> Inl e | Inr rest \<Rightarrow> Inr (shown # rest)))"

definition renderSecurityView :: "resource list \<Rightarrow> error + nsg_card list" where
  "renderSecurityView resources =
     renderNsgs (filter (\<lambda>r. res_type r = ''Microsoft.Network/networkSecurityGroups'') resources)"

section \<open>Dashboard\<close>

text \<open>\<open>renderStats\<close>: the three numbers of the stat cards; a \<open>Set\<close> counts each value once.\<close>

definition renderStats :: "resource list \<Rightarrow> nat \<times> nat \<times> nat" where
  "renderStats resources =
     (length resources,
      length (remdups (map resourceGroup resources)),
      length (remdups (map location resources)))"

text \<open>
  \<open>categoryCounts\<close>: an object keeps its keys in the order they were first assigned, as
  \<open>AList.update\<close> does.
\<close>

definition countCategories :: "resource list \<Rightarrow> (string \<times> nat) list" where
  "countCategories resources =
     fold (\<lambda>r categoryCounts.
             AList.update (category r)
               ((case map_of categoryCounts (category r) of None \<Rightarrow> 0 | Some n \<Rightarrow> n) + 1)
               categoryCounts)
       resources []"

text \<open>
  \<open>renderDashboardView\<close>: the cards of the container, each a category and its count.
  The second argument is what the container holds already; cards are rendered once.
\<close>

definition renderDashboardView ::
  "resource list \<Rightarrow> (string \<times> nat) list \<Rightarrow> (string \<times> nat) list" where
  "renderDashboardView resources shown =
     (if shown \<noteq> [] then shown
      else
        (let categoryCounts = countCategories resources
         in map (\<lambda>c. (c, the (map_of categoryCounts c))) (sort (map fst categoryCounts))))"

definition renderResourceExplorer ::
  "resource list \<Rightarrow> (string option \<times> string \<times> string option \<times> string option) list" where
  "renderResourceExplorer resources =
     map (\<lambda>r. (res_name r, res_type r, resourceGroup r, location r)) resources"

record views =
  stats :: "nat \<times> nat \<times> nat"
  cards :: "(string \<times> nat) list"
  tableRows :: "(string option \<times> string \<times> string option \<times> string option) list"
  network :: topology
  nsgCards :: "error + nsg_card list"

text \<open>
  The state of the page: the resources loaded, the active filter (\<open>None\<close> is \<open>null\<close>) and
  what the containers show. \<open>resourceMap\<close> is filled once from \<open>allResources\<close> and is
  \<open>resourceIndex (allResources st)\<close> throughout.
\<close>

record dashboard =
  allResources :: "resource list"
  activeFilters :: "string option"
  view :: views

text \<open>\<open>!activeFilters.category || r.category === activeFilters.category\<close>\<close>

definition matchesFilter :: "string option \<Rightarrow> resource \<Rightarrow> bool" where
  "matchesFilter selected r =
     (case selected of None \<Rightarrow> True | Some c \<Rightarrow> c = [] \<or> category r = c)"

definition applyFilters :: "(string \<Rightarrow> string) \<Rightarrow> dashboard \<Rightarrow> dashboard" where
  "applyFilters getIcon st =
     (let filteredResources = filter (matchesFilter (activeFilters st)) (allResources st)
      in st\<lparr>view :=
           \<lparr>stats = renderStats filteredResources,
            cards = renderDashboardView (allResources st) (cards (view st)),
            tableRows = renderResourceExplorer filteredResources,
            network =
              renderNetworkTopology getIcon (resourceIndex (allResources st)) filteredResources,
            nsgCards = renderSecurityView filteredResources\<rparr>\<rparr>)"

text \<open>
  \<open>initializeDashboard\<close>: the groups of \<open>by_type\<close> are appended in turn (none when the
  export has no \<open>resources.by_type\<close>), the containers are empty, no filter is active.
\<close>

definition initializeDashboard ::
  "(string \<Rightarrow> string) \<Rightarrow> (string \<times> resource list) list option \<Rightarrow> dashboard" where
  "initializeDashboard getIcon by_type =
     applyFilters getIcon
       \<lparr>allResources = (case by_type of None \<Rightarrow> [] | Some groups \<Rightarrow> concat (map snd groups)),
        activeFilters = None,
        view = \<lparr>stats = (0, 0, 0), cards = [], tableRows = [],
                network = \<lparr>nodes = [], edges = [], addedNodes = []\<rparr>,
                nsgCards = Inr []\<rparr>\<rparr>"

text \<open>
  The two handlers: a click on the card of a category (there is one for each category
  shown) and a click on the reset button.
\<close>

datatype event = CardClick string | ResetClick

definition handleEvent :: "(string \<Rightarrow> string) \<Rightarrow> event \<Rightarrow> dashboard \<Rightarrow> dashboard" where
  "handleEvent getIcon ev st =
     (case ev of
        CardClick c \<Rightarrow>
          if c \<in> fst ` set (cards (view st))
          then applyFilters getIcon
                 (st\<lparr>activeFilters := (if activeFilters st = Some c then None else Some c)\<rparr>)
          else st
      | ResetClick \<Rightarrow> applyFilters getIcon (st\<lparr>activeFilters := None\<rparr>))"

text \<open>The page after loading an export and a sequence of clicks.\<close>

definition run ::
  "(string \<Rightarrow> string) \<Rightarrow> (string \<times> resource list) list option \<Rightarrow> event list \<Rightarrow> dashboard" where
  "run getIcon by_type evs = fold (handleEvent getIcon) evs (initializeDashboard getIcon by_type)"


text \<open>
  What \<open>applyFilters\<close> shows, as a function of the resources and of the filter: the
  views derived from them.
\<close>

definition derivedViews :: "(string \<Rightarrow> string) \<Rightarrow> resource list \<Rightarrow> string option \<Rightarrow> views" where
  "derivedViews getIcon resources selected =
     (let filteredResources = filter (matchesFilter selected) resources
      in \<lparr>stats = renderStats filteredResources,
          cards = renderDashboardView resources [],
          tableRows = renderResourceExplorer filteredResources,
          network = renderNetworkTopology getIcon (resourceIndex resources) filteredResources,
          nsgCards = renderSecurityView filteredResources\<rparr>)"

text \<open>A page whose views are those of its resources and its filter.\<close>

definition rendered :: "(string \<Rightarrow> string) \<Rightarrow> dashboard \<Rightarrow> bool" where
  "rendered getIcon st \<longleftrightarrow>
     view st = derivedViews getIcon (allResources st) (activeFilters st)"

text \<open>\<open>allResources\<close> once the groups of \<open>by_type\<close> are appended.\<close>

definition loaded :: "(string \<times> resource list) list option \<Rightarrow> resource list" where
  "loaded by_type = (case by_type of None \<Rightarrow> [] | Some groups \<Rightarrow> concat (map snd groups))"





section \<open>An example export\<close>

text \<open>
  Four resources: a virtual machine that names its disk from two properties and itself
  from one, a disk without properties, a security group with four rules, and a network
  interface.
\<close>

definition ex_disk :: resource where
  "ex_disk =
     \<lparr>res_id = ''/subscriptions/s1/disk'', res_type = ''Microsoft.Compute/disks'',
      res_name = Some ''disk'', resourceGroup = Some ''rg1'', location = Some ''westeurope'',
      properties = None\<rparr>"

definition ex_vm :: resource where
  "ex_vm =
     \<lparr>res_id = ''/subscriptions/s1/vm'', res_type = ''Microsoft.Compute/virtualMachines'',
      res_name = Some ''vm'', resourceGroup = Some ''rg1'', location = Some ''westeurope'',
      properties = Some (JObj
        [(''vmId'', JStr ''/Subscriptions/S1/VM''),
         (''storageProfile'', JObj
            [(''osDisk'', JStr ''/SUBSCRIPTIONS/S1/DISK''),
             (''dataDisks'', JArr [JStr ''/subscriptions/s1/disk''])]),
         (''group'', JStr ''NSG'')])\<rparr>"

definition ex_rule :: "string \<Rightarrow> int \<Rightarrow> json" where
  "ex_rule name p = JObj [(''name'', JStr name), (''properties'', JObj [(''priority'', JNum p)])]"

definition ex_nsg :: resource where
  "ex_nsg =
     \<lparr>res_id = ''nsg'', res_type = ''Microsoft.Network/networkSecurityGroups'',
      res_name = Some ''nsg'', resourceGroup = Some ''rg2'', location = None,
      properties = Some (JObj
        [(''securityRules'', JArr [ex_rule ''a'' 300, ex_rule ''b'' 100]),
         (''defaultSecurityRules'', JArr [ex_rule ''c'' 100, ex_rule ''d'' 200])])\<rparr>"

definition ex_nic :: resource where
  "ex_nic =
     \<lparr>res_id = ''/subscriptions/s1/nic'', res_type = ''Microsoft.Network/networkInterfaces'',
      res_name = Some ''nic'', resourceGroup = Some ''rg2'', location = Some ''westeurope'',
      properties = Some (JObj
        [(''virtualMachine'', JObj [(''id'', JStr ''/subscriptions/s1/VM'')]),
         (''disk'', JStr ''/subscriptions/s1/disk'')])\<rparr>"

definition ex_resources :: "resource list" where
  "ex_resources = [ex_vm, ex_disk, ex_nsg, ex_nic]"

definition ex_icon :: "string \<Rightarrow> string" where
  "ex_icon t = ''icon''"

definition ex_by_type :: "(string \<times> resource list) list option" where
  "ex_by_type =
     Some [(''Microsoft.Compute/virtualMachines'', [ex_vm]),
           (''Microsoft.Compute/disks'', [ex_disk]),
           (''Microsoft.Network/networkSecurityGroups'', [ex_nsg]),
           (''Microsoft.Network/networkInterfaces'', [ex_nic])]"

section \<open>Properties of the classifier\<close>

lemma contains_iff: "contains keyword s \<longleftrightarrow> (\<exists>p q. s = p @ keyword @ q)"
proof (induction s)
  case Nil
  then show ?case by auto
next
  case (Cons c cs)
  show ?case
  proof
    assume "contains keyword (c # cs)"
    then consider "prefix keyword (c # cs)" | "contains keyword cs" by auto
    then show "\<exists>p q. c # cs = p @ keyword @ q"
    proof cases
      case 1
      then obtain q where "c # cs = keyword @ q" by (auto simp: prefix_def)
      then have "c # cs = [] @ keyword @ q" by simp
      then show ?thesis by blast
    next
      case 2
      with Cons.IH obtain p q where "cs = p @ keyword @ q" by blast
      then have "c # cs = (c # p) @ keyword @ q" by simp
      then show ?thesis by blast
    qed
  next
    assume "\<exists>p q. c # cs = p @ keyword @ q"
    then obtain p q where pq: "c # cs = p @ keyword @ q" by blast
    show "contains keyword (c # cs)"
    proof (cases p)
      case Nil
      with pq have "prefix keyword (c # cs)" by (simp add: prefix_def)
      then show ?thesis by simp
    next
      case (Cons a p')
      with pq have "cs = p' @ keyword @ q" by simp
      with Cons.IH have "contains keyword cs" by blast
      then show ?thesis by simp
    qed
  qed
qed

lemma getCategoryIn_find:
  "getCategoryIn table t =
     (case find (\<lambda>(pre, cat). prefix pre t) table of
        Some (pre, cat) \<Rightarrow> cat
      | None \<Rightarrow> ''Other'')"
  by (induction table) auto

lemma getCategoryIn_range:
  "getCategoryIn table t = ''Other'' \<or> getCategoryIn table t \<in> snd ` set table"
  by (induction table) force+

lemma categorize_first_find:
  "categorize_first table s =
     map_option fst (find (\<lambda>(cat, keywords). \<exists>keyword \<in> set keywords. contains keyword s) table)"
  by (induction table) (auto simp: list_ex_iff)

lemma categorize_first_range:
  "categorize_first table s = Some c \<Longrightarrow> c \<in> fst ` set table"
  by (induction table) (force split: if_splits)+

text \<open>
  Claim C2, as the code has it. \<open>getCategory\<close> does not lower-case its argument and its
  keys are prefixes, compared as written: it returns the category of the first key of
  \<open>serviceCategories\<close>, in the declared order, that the type starts with, and
  \<open>''Other''\<close> when there is none, so that every string, the empty one too, gets exactly
  one of the eight categories. The PNG generator's \<open>categorize\<close> is the one that
  lower-cases the type once and looks for lower-case keywords anywhere in it: it returns
  the first category of \<open>type_mapping\<close> one of whose keywords occurs in the lower-cased
  type, and \<open>''other''\<close> when there is none, always one of its ten categories.
\<close>

theorem classifier_first_match:
  "getCategory t =
     (case find (\<lambda>(pre, cat). prefix pre t) serviceCategories of
        Some (pre, cat) \<Rightarrow> cat
      | None \<Rightarrow> ''Other'')
   \<and> getCategory t \<in> set categoryNames
   \<and> getCategory [] = ''Other''
   \<and> categorize t =
     (case find (\<lambda>(cat, keywords).
                   \<exists>keyword \<in> set keywords. \<exists>p q. toLowerCase t = p @ keyword @ q) type_mapping of
        Some (cat, keywords) \<Rightarrow> cat
      | None \<Rightarrow> ''other'')
   \<and> categorize t \<in> set png_categories"
proof -
  have a: "getCategory t =
     (case find (\<lambda>(pre, cat). prefix pre t) serviceCategories of
        Some (pre, cat) \<Rightarrow> cat
      | None \<Rightarrow> ''Other'')"
    unfolding getCategory_def by (rule getCategoryIn_find)
  have "snd ` set serviceCategories \<subseteq> set categoryNames"
    by (simp add: serviceCategories_def categoryNames_def)
  moreover have "''Other'' \<in> set categoryNames"
    by (simp add: categoryNames_def)
  ultimately have b: "getCategory t \<in> set categoryNames"
    using getCategoryIn_range [of serviceCategories t] unfolding getCategory_def by auto
  have c: "getCategory [] = ''Other''"
    by (simp add: getCategory_def serviceCategories_def)
  have d: "categorize t =
     (case find (\<lambda>(cat, keywords).
                   \<exists>keyword \<in> set keywords. \<exists>p q. toLowerCase t = p @ keyword @ q) type_mapping of
        Some (cat, keywords) \<Rightarrow> cat
      | None \<Rightarrow> ''other'')"
    unfolding categorize_def categorize_first_find contains_iff
    by (cases "find (\<lambda>(cat, keywords).
                   \<exists>keyword \<in> set keywords. \<exists>p q. toLowerCase t = p @ keyword @ q) type_mapping")
       auto
  have "fst ` set type_mapping \<subseteq> set png_categories"
    by (simp add: type_mapping_def png_categories_def)
  moreover have "''other'' \<in> set png_categories"
    by (simp add: png_categories_def)
  ultimately have e: "categorize t \<in> set png_categories"
    using categorize_first_range [of type_mapping "toLowerCase t"]
    unfolding categorize_def by (auto split: option.splits)
  from a b c d e show ?thesis by blast
qed

text \<open>
  Claim C2 as stated fails on \<open>getCategory\<close>: two type strings with the same lower-cased
  form are put in different categories, and a key that occurs in the type but not at
  its start does not count.
\<close>

theorem getCategory_case_sensitive_counterexample:
  "toLowerCase ''Microsoft.Compute/disks'' = toLowerCase ''microsoft.compute/disks''
   \<and> getCategory ''Microsoft.Compute/disks'' = ''Compute''
   \<and> getCategory ''microsoft.compute/disks'' = ''Other''
   \<and> getCategory ''Contoso.Microsoft.Compute'' = ''Other''"
  by (simp add: getCategory_def serviceCategories_def toLowerCase_def toLowerChar_def)

section \<open>Properties of the scan\<close>

lemma length_toLowerCase: "length (toLowerCase s) = length s"
  by (simp add: toLowerCase_def)

lemma scanString_char: "scanString env [c] = []"
proof -
  have "\<not> prefix ''/subscriptions/'' (toLowerCase [c])"
  proof
    assume "prefix ''/subscriptions/'' (toLowerCase [c])"
    then have "length ''/subscriptions/'' \<le> length (toLowerCase [c])"
      by (rule prefix_length_le)
    then show False by (simp add: length_toLowerCase)
  qed
  then show ?thesis by (simp add: scanString_def Let_def)
qed

lemma scanItems_concat: "scanItems env xs = concat (map (scanValue env) xs)"
  by (induction xs) simp_all

lemma scanEntries_concat: "scanEntries env kvs = concat (map (\<lambda>kv. scanValue env (snd kv)) kvs)"
  by (induction kvs) auto

lemma concat_map_concat:
  "concat (map f (concat xss)) = concat (map (\<lambda>xs. concat (map f xs)) xss)"
  by (induction xss) simp_all

lemma scanValue_strings: "scanValue env v = concat (map (scanString env) (strings_in v))"
proof (induction v)
  case (JArr xs)
  have "map (scanValue env) xs = map (\<lambda>x. concat (map (scanString env) (strings_in x))) xs"
    by (rule map_cong [OF refl]) (rule JArr.IH)
  then have "concat (map (scanValue env) xs)
             = concat (map (\<lambda>x. concat (map (scanString env) (strings_in x))) xs)"
    by (rule arg_cong)
  then show ?case
    by (simp only: scanValue.simps scanProperties.simps scanItems_concat strings_in.simps
          concat_map_concat map_map o_def)
next
  case (JObj kvs)
  have "map (\<lambda>kv. scanValue env (snd kv)) kvs
        = map (\<lambda>kv. concat (map (scanString env) (strings_in (snd kv)))) kvs"
  proof (rule map_cong [OF refl])
    fix kv assume kv: "kv \<in> set kvs"
    obtain k v where eq: "kv = (k, v)" by (cases kv)
    from kv show "scanValue env (snd kv) = concat (map (scanString env) (strings_in (snd kv)))"
      using JObj.IH [of "(k, v)" v] by (simp add: eq)
  qed
  then have "concat (map (\<lambda>kv. scanValue env (snd kv)) kvs)
        = concat (map (\<lambda>kv. concat (map (scanString env) (strings_in (snd kv)))) kvs)"
    by (rule arg_cong)
  then show ?case
    by (simp only: scanValue.simps scanProperties.simps scanEntries_concat strings_in.simps
          concat_map_concat map_map o_def)
qed simp_all

lemma scanResource_strings:
  "scanResource m ids r
   = concat (map (scanString \<lparr>resourceMap = m, filteredResourceIds = ids, current = r\<rparr>)
       (leaf_strings r))"
proof (cases "properties r")
  case None
  then show ?thesis by (simp add: scanResource_def leaf_strings_def)
next
  case (Some obj)
  show ?thesis
  proof (cases obj)
    case (JStr s)
    have "concat (map (\<lambda>c. scanString env [c]) s) = []" for env :: scope
      by (induction s) (simp_all add: scanString_char)
    with Some JStr show ?thesis by (simp add: scanResource_def leaf_strings_def)
  next
    case (JArr xs)
    with Some show ?thesis
      using scanValue_strings [of _ "JArr xs"]
      by (simp add: scanResource_def leaf_strings_def)
  next
    case (JObj kvs)
    with Some show ?thesis
      using scanValue_strings [of _ "JObj kvs"]
      by (simp add: scanResource_def leaf_strings_def)
  qed (use Some in \<open>simp_all add: scanResource_def leaf_strings_def\<close>)
qed

lemma edges_fold_visitResource:
  "edges (fold (visitResource getIcon m ids) rs t)
   = edges t @ concat (map (scanResource m ids) rs)"
  by (induction rs arbitrary: t) (simp_all add: visitResource_def Let_def)

lemma edges_renderNetworkTopology:
  "edges (renderNetworkTopology getIcon m rs)
   = concat (map (scanResource m (map (\<lambda>r. toLowerCase (res_id r)) rs)) rs)"
  by (simp add: renderNetworkTopology_def Let_def edges_fold_visitResource)



lemma resourceIndex_fold:
  "fold (\<lambda>r m. m(toLowerCase (res_id r) \<mapsto> r)) rs m0 k = Some r' \<Longrightarrow>
   (r' \<in> set rs \<and> toLowerCase (res_id r') = k) \<or> m0 k = Some r'"
  by (induction rs arbitrary: m0) (fastforce split: if_splits)+

lemma resourceIndex_Some:
  "resourceIndex rs k = Some r' \<Longrightarrow> r' \<in> set rs \<and> toLowerCase (res_id r') = k"
  using resourceIndex_fold [of rs Map.empty k r'] by (simp add: resourceIndex_def)



section \<open>Properties of the graph\<close>

lemmas ex_defs = ex_disk_def ex_vm_def ex_nsg_def ex_rule_def ex_nic_def ex_resources_def
lemmas eval_defs = buildGraph_def renderNetworkTopology_def visitResource_def scanResource_def
  scanString_def resourceIndex_def toLowerCase_def toLowerChar_def Let_def leaf_strings_def

lemma ex_edges:
  "edges (buildGraph ex_icon ex_resources)
   = [(''/subscriptions/s1/vm'', ''/subscriptions/s1/disk''),
      (''/subscriptions/s1/vm'', ''/subscriptions/s1/disk''),
      (''/subscriptions/s1/nic'', ''/subscriptions/s1/vm''),
      (''/subscriptions/s1/nic'', ''/subscriptions/s1/disk'')]"
  by (simp add: ex_defs eval_defs)




lemma ex_lower:
  "toLowerCase ''NSG'' = ''nsg''"
  "toLowerCase ''/SUBSCRIPTIONS/S1/DISK'' = ''/subscriptions/s1/disk''"
  "toLowerCase ''/subscriptions/s1/disk'' = ''/subscriptions/s1/disk''"
  "toLowerCase ''/subscriptions/s1/vm'' = ''/subscriptions/s1/vm''"
  by (simp_all add: toLowerCase_def toLowerChar_def)

lemma scanString_cases:
  "scanString env s = [] \<or>
   (\<exists>r'. scanString env s = [(res_id (current env), res_id r')]
      \<and> resourceMap env (toLowerCase s) = Some r'
      \<and> prefix ''/subscriptions/'' (toLowerCase s)
      \<and> toLowerCase s \<in> set (filteredResourceIds env)
      \<and> toLowerCase (res_id (current env)) \<noteq> toLowerCase s)"
  by (auto simp: scanString_def Let_def)


lemma in_edges_iff:
  "e \<in> set (edges (renderNetworkTopology getIcon m rs)) \<longleftrightarrow>
   (\<exists>r \<in> set rs. \<exists>s \<in> set (leaf_strings r).
      e \<in> set (scanString \<lparr>resourceMap = m,
                 filteredResourceIds = map (\<lambda>r. toLowerCase (res_id r)) rs, current = r\<rparr> s))"
  by (simp add: edges_renderNetworkTopology scanResource_strings)

lemma edge_shape:
  assumes "e \<in> set (edges (renderNetworkTopology getIcon (resourceIndex all) rs))"
  shows "\<exists>r \<in> set rs. \<exists>r' \<in> set all. \<exists>s \<in> set (leaf_strings r).
           e = (res_id r, res_id r') \<and> resourceIndex all (toLowerCase s) = Some r'
           \<and> toLowerCase (res_id r') = toLowerCase s
           \<and> prefix ''/subscriptions/'' (toLowerCase s)
           \<and> toLowerCase s \<in> (\<lambda>r. toLowerCase (res_id r)) ` set rs
           \<and> toLowerCase (res_id r) \<noteq> toLowerCase s"
proof -
  from assms obtain r s where r: "r \<in> set rs" and s: "s \<in> set (leaf_strings r)"
    and e: "e \<in> set (scanString \<lparr>resourceMap = resourceIndex all,
                 filteredResourceIds = map (\<lambda>r. toLowerCase (res_id r)) rs, current = r\<rparr> s)"
    unfolding in_edges_iff by blast
  let ?env = "\<lparr>resourceMap = resourceIndex all,
                 filteredResourceIds = map (\<lambda>r. toLowerCase (res_id r)) rs, current = r\<rparr>"
  from e scanString_cases [of ?env s] obtain r' where
    "e = (res_id r, res_id r')" "resourceIndex all (toLowerCase s) = Some r'"
    "prefix ''/subscriptions/'' (toLowerCase s)"
    "toLowerCase s \<in> (\<lambda>r. toLowerCase (res_id r)) ` set rs"
    "toLowerCase (res_id r) \<noteq> toLowerCase s"
    by auto
  moreover from this resourceIndex_Some [of all "toLowerCase s" r']
  have "r' \<in> set all" "toLowerCase (res_id r') = toLowerCase s" by simp_all
  ultimately show ?thesis using r s by blast
qed


text \<open>
  Claim C7: the graph of any resource collection has no self-loop. The two ends of an
  edge differ, and differ even when compared without regard to letter case, so a
  resource whose properties name its own identifier gets no edge from that.
\<close>

theorem buildGraph_no_self_loop:
  assumes "e \<in> set (edges (buildGraph getIcon rs))"
  shows "fst e \<noteq> snd e \<and> toLowerCase (fst e) \<noteq> toLowerCase (snd e)"
  using edge_shape [OF assms [unfolded buildGraph_def]] by auto

text \<open>
  Claim C10: an edge is emitted for a string leaf only if the lower-cased leaf starts
  with \<open>/subscriptions/\<close>. Every edge of the graph points to an identifier that,
  lower-cased, starts with that prefix, and a string that does not start with it emits
  nothing, whatever the index holds.
\<close>

theorem edge_only_for_subscriptions_prefix:
  "(e \<in> set (edges (buildGraph getIcon rs)) \<longrightarrow> prefix ''/subscriptions/'' (toLowerCase (snd e)))
   \<and> (\<not> prefix ''/subscriptions/'' (toLowerCase s) \<longrightarrow> scanString env s = [])"
proof (intro conjI impI)
  assume "e \<in> set (edges (buildGraph getIcon rs))"
  from edge_shape [OF this [unfolded buildGraph_def]]
  show "prefix ''/subscriptions/'' (toLowerCase (snd e))" by auto
next
  assume "\<not> prefix ''/subscriptions/'' (toLowerCase s)"
  then show "scanString env s = []" by (simp add: scanString_def Let_def)
qed




text \<open>An edge of the example, where the virtual machine also names itself.\<close>

theorem buildGraph_no_self_loop_witness:
  "(''/subscriptions/s1/vm'', ''/subscriptions/s1/disk'') \<in> set (edges (buildGraph ex_icon ex_resources))
   \<and> ''/subscriptions/s1/vm'' \<noteq> ''/subscriptions/s1/disk''
   \<and> toLowerCase ''/subscriptions/s1/vm'' \<noteq> toLowerCase ''/subscriptions/s1/disk''"
proof -
  have h: "(''/subscriptions/s1/vm'', ''/subscriptions/s1/disk'')
           \<in> set (edges (buildGraph ex_icon ex_resources))"
    by (simp add: ex_edges)
  from h buildGraph_no_self_loop [OF h] show ?thesis by simp
qed

text \<open>An edge of the example and the leaf \<open>NSG\<close>, which is in the index and emits nothing.\<close>

theorem edge_only_for_subscriptions_prefix_witness:
  "(''/subscriptions/s1/vm'', ''/subscriptions/s1/disk'') \<in> set (edges (buildGraph ex_icon ex_resources))
   \<and> prefix ''/subscriptions/'' (toLowerCase ''/subscriptions/s1/disk'')
   \<and> \<not> prefix ''/subscriptions/'' (toLowerCase ''NSG'')
   \<and> scanString \<lparr>resourceMap = resourceIndex ex_resources,
        filteredResourceIds = map (\<lambda>r. toLowerCase (res_id r)) ex_resources,
        current = ex_vm\<rparr> ''NSG'' = []"
proof -
  have h1: "(''/subscriptions/s1/vm'', ''/subscriptions/s1/disk'')
           \<in> set (edges (buildGraph ex_icon ex_resources))"
    by (simp add: ex_edges)
  have h2: "\<not> prefix ''/subscriptions/'' (toLowerCase ''NSG'')"
    by (simp add: ex_lower)
  from h1 h2 edge_only_for_subscriptions_prefix
    [of "(''/subscriptions/s1/vm'', ''/subscriptions/s1/disk'')" ex_icon ex_resources "''NSG''"]
  show ?thesis by simp
qed












section \<open>Properties of the dashboard\<close>

lemma renderDashboardView_again:
  "renderDashboardView rs (renderDashboardView rs []) = renderDashboardView rs []"
  by (simp add: renderDashboardView_def)

lemma applyFilters_view:
  assumes "cards (view st) = [] \<or> cards (view st) = renderDashboardView (allResources st) []"
  shows "applyFilters getIcon st
         = st\<lparr>view := derivedViews getIcon (allResources st) (activeFilters st)\<rparr>"
proof -
  from assms have "renderDashboardView (allResources st) (cards (view st))
                   = renderDashboardView (allResources st) []"
    by (auto simp: renderDashboardView_again)
  then show ?thesis
    by (simp add: applyFilters_def derivedViews_def Let_def)
qed

lemma cards_derivedViews:
  "cards (derivedViews getIcon rs sel) = renderDashboardView rs []"
  by (simp add: derivedViews_def Let_def)

lemma applyFilters_rendered:
  assumes "rendered getIcon st"
  shows "applyFilters getIcon (st\<lparr>activeFilters := sel\<rparr>)
         = st\<lparr>activeFilters := sel, view := derivedViews getIcon (allResources st) sel\<rparr>"
proof -
  from assms have "cards (view (st\<lparr>activeFilters := sel\<rparr>))
      = renderDashboardView (allResources (st\<lparr>activeFilters := sel\<rparr>)) []"
    by (simp add: rendered_def cards_derivedViews)
  then show ?thesis by (simp add: applyFilters_view)
qed

lemma handleEvent_rendered:
  assumes "rendered getIcon st"
  shows "rendered getIcon (handleEvent getIcon ev st)
         \<and> allResources (handleEvent getIcon ev st) = allResources st"
  using assms
  by (cases ev) (auto simp: handleEvent_def applyFilters_rendered rendered_def)

lemma initializeDashboard_eq:
  "initializeDashboard getIcon by_type
   = \<lparr>allResources = loaded by_type, activeFilters = None,
      view = derivedViews getIcon (loaded by_type) None\<rparr>"
  unfolding initializeDashboard_def loaded_def [symmetric]
  by (subst applyFilters_view) simp_all

lemma run_snoc:
  "run getIcon by_type (evs @ [ev]) = handleEvent getIcon ev (run getIcon by_type evs)"
  by (simp add: run_def)

lemma run_rendered:
  "rendered getIcon (run getIcon by_type evs)
   \<and> allResources (run getIcon by_type evs) = loaded by_type"
proof (induction evs rule: rev_induct)
  case Nil
  show ?case by (simp add: run_def initializeDashboard_eq rendered_def)
next
  case (snoc ev evs)
  then show ?case
    using handleEvent_rendered [of getIcon "run getIcon by_type evs" ev]
    by (simp add: run_snoc)
qed

lemma view_run:
  "view (run getIcon by_type evs)
   = derivedViews getIcon (loaded by_type) (activeFilters (run getIcon by_type evs))"
  using run_rendered [of getIcon by_type evs] by (simp add: rendered_def)


lemma ex_loaded: "loaded ex_by_type = ex_resources"
  by (simp add: loaded_def ex_by_type_def ex_resources_def)

lemma ex_categories:
  "category ex_vm = ''Compute''" "category ex_disk = ''Compute''"
  "category ex_nsg = ''Network''" "category ex_nic = ''Network''"
  by (simp_all add: category_def getCategory_def serviceCategories_def ex_defs)

lemma ex_cards:
  "renderDashboardView ex_resources [] = [(''Compute'', 2), (''Network'', 2)]"
  by (simp add: renderDashboardView_def countCategories_def ex_resources_def ex_categories
        AList.update.simps Let_def)

text \<open>
  Claim C8: toggling. On any page reached by loading an export and clicking, with no
  filter active and a card for category \<open>c\<close>: a click on the card makes \<open>c\<close> the active
  filter, a second click on it, \<open>c\<close> being active, clears the filter, and the page is
  then the page before the two clicks, its views those of the empty filter.
\<close>

theorem card_toggle_restores_views:
  assumes "activeFilters (run getIcon by_type evs) = None"
    and "c \<in> fst ` set (cards (view (run getIcon by_type evs)))"
  shows "activeFilters (handleEvent getIcon (CardClick c) (run getIcon by_type evs)) = Some c
     \<and> activeFilters (handleEvent getIcon (CardClick c)
          (handleEvent getIcon (CardClick c) (run getIcon by_type evs))) = None
     \<and> handleEvent getIcon (CardClick c)
          (handleEvent getIcon (CardClick c) (run getIcon by_type evs))
        = run getIcon by_type evs
     \<and> view (handleEvent getIcon (CardClick c)
          (handleEvent getIcon (CardClick c) (run getIcon by_type evs)))
        = derivedViews getIcon (loaded by_type) None"
proof -
  let ?st = "run getIcon by_type evs"
  have r: "rendered getIcon ?st" and a: "allResources ?st = loaded by_type"
    using run_rendered [of getIcon by_type evs] by simp_all
  define st1 where "st1 = handleEvent getIcon (CardClick c) ?st"
  have one: "st1 = ?st\<lparr>activeFilters := Some c,
                        view := derivedViews getIcon (allResources ?st) (Some c)\<rparr>"
    using assms by (simp add: st1_def handleEvent_def applyFilters_rendered [OF r])
  have r1: "rendered getIcon st1"
    using handleEvent_rendered [OF r, of "CardClick c"] by (simp add: st1_def)
  have af1: "activeFilters st1 = Some c" by (simp add: one)
  have card1: "c \<in> fst ` set (cards (view st1))"
    using assms(2) r by (simp add: one rendered_def cards_derivedViews)
  have "handleEvent getIcon (CardClick c) st1
        = applyFilters getIcon (st1\<lparr>activeFilters := None\<rparr>)"
    using card1 af1 by (simp add: handleEvent_def)
  also have "\<dots> = st1\<lparr>activeFilters := None,
                      view := derivedViews getIcon (allResources st1) None\<rparr>"
    by (rule applyFilters_rendered [OF r1])
  also have "\<dots> = ?st"
    unfolding one using assms(1) r by (simp add: rendered_def)
  finally have two: "handleEvent getIcon (CardClick c) st1 = ?st" .
  from af1 two assms(1) view_run [of getIcon by_type evs]
  show ?thesis unfolding st1_def by simp
qed

text \<open>The example right after loading, and its card \<open>Compute\<close>.\<close>

theorem card_toggle_restores_views_witness:
  "activeFilters (run ex_icon ex_by_type []) = None
   \<and> ''Compute'' \<in> fst ` set (cards (view (run ex_icon ex_by_type [])))
   \<and> activeFilters (handleEvent ex_icon (CardClick ''Compute'') (run ex_icon ex_by_type []))
       = Some ''Compute''
   \<and> handleEvent ex_icon (CardClick ''Compute'')
        (handleEvent ex_icon (CardClick ''Compute'') (run ex_icon ex_by_type []))
      = run ex_icon ex_by_type []"
proof -
  have h1: "activeFilters (run ex_icon ex_by_type []) = None"
    by (simp add: run_def initializeDashboard_eq)
  have h2: "''Compute'' \<in> fst ` set (cards (view (run ex_icon ex_by_type [])))"
    by (simp add: view_run cards_derivedViews ex_loaded ex_cards)
  from card_toggle_restores_views [OF h1 h2] h1 h2 show ?thesis by simp
qed

lemma countCategories_fold:
  fixes step
  defines "step \<equiv> (\<lambda>r categoryCounts.
             AList.update (category r)
               ((case map_of categoryCounts (category r) of None \<Rightarrow> 0 | Some n \<Rightarrow> n) + 1)
               categoryCounts)"
  assumes "distinct (map fst al)"
  shows "distinct (map fst (fold step rs al))
     \<and> fst ` set (fold step rs al) = fst ` set al \<union> category ` set rs
     \<and> (\<forall>c. (case map_of (fold step rs al) c of None \<Rightarrow> 0 | Some n \<Rightarrow> n)
            = (case map_of al c of None \<Rightarrow> 0 | Some n \<Rightarrow> n)
              + length (filter (\<lambda>r. category r = c) rs))"
  using assms(2)
proof (induction rs arbitrary: al)
  case Nil
  then show ?case by simp
next
  case (Cons r rs)
  let ?al = "step r al"
  have d: "distinct (map fst ?al)"
    using Cons.prems by (simp add: step_def distinct_update)
  have dom: "fst ` set ?al = insert (category r) (fst ` set al)"
    by (simp add: step_def dom_update)
  have cnt: "(case map_of ?al c of None \<Rightarrow> 0 | Some n \<Rightarrow> n)
             = (case map_of al c of None \<Rightarrow> 0 | Some n \<Rightarrow> n)
               + (if category r = c then 1 else 0)" for c
    by (simp add: step_def update_conv')
  from Cons.IH [OF d] dom cnt show ?case by auto
qed

lemma countCategories_props:
  "distinct (map fst (countCategories rs))"
  "fst ` set (countCategories rs) = category ` set rs"
  "(case map_of (countCategories rs) c of None \<Rightarrow> 0 | Some n \<Rightarrow> n)
     = length (filter (\<lambda>r. category r = c) rs)"
  using countCategories_fold [of "[]" rs] by (simp_all add: countCategories_def)

lemma countCategories_the:
  assumes "c \<in> category ` set rs"
  shows "the (map_of (countCategories rs) c) = length (filter (\<lambda>r. category r = c) rs)"
proof -
  from assms have "c \<in> fst ` set (countCategories rs)"
    by (simp add: countCategories_props)
  then obtain n where "map_of (countCategories rs) c = Some n"
    by (metis domD dom_map_of_conv_image_fst)
  with countCategories_props(3) [of rs c] show ?thesis by simp
qed

lemma sort_keys_eq:
  "sort (map fst (countCategories rs)) = sort (remdups (map category rs))"
proof (rule sorted_distinct_set_unique)
  show "set (sort (map fst (countCategories rs))) = set (sort (remdups (map category rs)))"
    using countCategories_props(2) [of rs] by simp
qed (simp_all add: countCategories_props)

lemma renderDashboardView_totals:
  "renderDashboardView rs []
   = map (\<lambda>c. (c, length (filter (\<lambda>r. category r = c) rs))) (sort (remdups (map category rs)))"
proof -
  have "map (\<lambda>c. (c, the (map_of (countCategories rs) c))) (sort (remdups (map category rs)))
      = map (\<lambda>c. (c, length (filter (\<lambda>r. category r = c) rs))) (sort (remdups (map category rs)))"
    by (rule map_cong [OF refl]) (simp add: countCategories_the)
  then show ?thesis
    by (simp add: renderDashboardView_def Let_def sort_keys_eq)
qed

lemma renderStats_card:
  "renderStats rs = (length rs, card (resourceGroup ` set rs), card (location ` set rs))"
  by (simp add: renderStats_def length_remdups_card_conv)

text \<open>
  Claim C5: on every page reached by loading an export and clicking, whatever filter
  is active, the category cards show, for each category of the full resource set in
  sorted order, the number of resources of the full set in it; the three counts
  (visible resources, distinct resource groups, distinct locations) are those of the
  resources that pass the filter.
\<close>

theorem totals_unfiltered_counts_filtered:
  "cards (view (run getIcon by_type evs))
     = map (\<lambda>c. (c, length (filter (\<lambda>r. category r = c) (loaded by_type))))
         (sort (remdups (map category (loaded by_type))))
   \<and> stats (view (run getIcon by_type evs))
     = (length (filter (matchesFilter (activeFilters (run getIcon by_type evs))) (loaded by_type)),
        card (resourceGroup `
          set (filter (matchesFilter (activeFilters (run getIcon by_type evs))) (loaded by_type))),
        card (location `
          set (filter (matchesFilter (activeFilters (run getIcon by_type evs))) (loaded by_type))))"
  by (simp add: view_run cards_derivedViews renderDashboardView_totals)
     (simp add: derivedViews_def Let_def renderStats_card)

lemma ex_click:
  "activeFilters (run ex_icon ex_by_type [CardClick ''Network'']) = Some ''Network''"
proof -
  have "''Network'' \<in> fst ` set (cards (view (run ex_icon ex_by_type [])))"
    by (simp add: view_run cards_derivedViews ex_loaded ex_cards)
  moreover have "rendered ex_icon (run ex_icon ex_by_type [])"
    using run_rendered by blast
  moreover have "activeFilters (run ex_icon ex_by_type []) = None"
    by (simp add: run_def initializeDashboard_eq)
  ultimately show ?thesis
    using run_snoc [of ex_icon ex_by_type "[]" "CardClick ''Network''"]
    by (simp add: handleEvent_def applyFilters_rendered)
qed

text \<open>The example with the filter \<open>Network\<close>: the cards still count all four resources.\<close>

theorem totals_unfiltered_counts_filtered_witness:
  "activeFilters (run ex_icon ex_by_type [CardClick ''Network'']) = Some ''Network''
   \<and> cards (view (run ex_icon ex_by_type [CardClick ''Network'']))
       = [(''Compute'', 2), (''Network'', 2)]
   \<and> stats (view (run ex_icon ex_by_type [CardClick ''Network''])) = (2, 1, 2)"
proof -
  have f: "filter (matchesFilter (Some ''Network'')) ex_resources = [ex_nsg, ex_nic]"
    by (simp add: matchesFilter_def ex_resources_def ex_categories)
  have c: "card (resourceGroup ` set [ex_nsg, ex_nic]) = 1"
      "card (location ` set [ex_nsg, ex_nic]) = 2"
    by (simp_all add: ex_defs)
  from totals_unfiltered_counts_filtered [of ex_icon ex_by_type "[CardClick ''Network'']"] c
  show ?thesis
    by (simp add: ex_click ex_loaded f renderDashboardView_totals [symmetric] ex_cards)
qed












section \<open>Properties of the security view\<close>















end
